theory Spec2Isabelle
  imports Complex_Main
begin

section \<open>GitConsensus: the vote tally and the consensus criteria\<close>

text \<open>
  A shallow embedding of \<^verbatim>\<open>gitconsensus/repository.py\<close>: the loop of
  \<^verbatim>\<open>PullRequest.__init__\<close> that sorts reactions into vote lists, the elapsed-time
  methods, \<^verbatim>\<open>PullRequest.validate\<close>, \<^verbatim>\<open>PullRequest.shouldClose\<close> and the class
  \<^verbatim>\<open>Consensus\<close>. The program is Python 3: \<^verbatim>\<open>/\<close> is true division.

  Conventions of the model:
  \<^item> an exception is a value \<open>Inl e\<close> of the result type \<open>pyerr + 'a\<close>;
  \<^item> a Python float is the rational number it stands for; the true division of two
    integers rounds the exact quotient to the nearest double, ties to the even
    significand; comparisons are exact (NaN and the infinities are not modelled);
  \<^item> a naive \<^verbatim>\<open>datetime\<close> is an integer count of microseconds;
  \<^item> the network calls are inputs: the reactions as a list of (login, content) pairs in
    the order the platform returns them, the contributor logins as a list, the labels of
    the issue, and the fields read from the platform's pull request object.
\<close>

subsection \<open>Python values and exceptions\<close>

datatype pyerr = TypeError | NameError | UnboundLocalError | ValueError

text \<open>
  The values a YAML policy document stores under a key: null, booleans, integers, floats,
  strings and sequences. (Mappings as values are not modelled.)
\<close>

datatype pyval = PNone | PBool bool | PInt int | PFloat rat | PStr string | PList "pyval list"

type_synonym rules = "string \<rightharpoonup> pyval"

text \<open>Truth value testing, as \<^verbatim>\<open>and\<close> and \<^verbatim>\<open>if\<close> apply it.\<close>

fun truthy :: "pyval \<Rightarrow> bool" where
  "truthy PNone = False"
| "truthy (PBool b) = b"
| "truthy (PInt i) = (i \<noteq> 0)"
| "truthy (PFloat q) = (q \<noteq> 0)"
| "truthy (PStr s) = (s \<noteq> [])"
| "truthy (PList vs) = (vs \<noteq> [])"

text \<open>\<^verbatim>\<open>'key' in rules and rules['key']\<close>, used as a condition.\<close>

definition rule_set :: "rules \<Rightarrow> string \<Rightarrow> bool" where
  "rule_set d k = (case d k of None \<Rightarrow> False | Some v \<Rightarrow> truthy v)"

text \<open>
  The numeric value of an operand of \<^verbatim>\<open><\<close> or \<^verbatim>\<open>>=\<close> whose other operand is a number:
  \<^verbatim>\<open>bool\<close> is a subclass of \<^verbatim>\<open>int\<close>; \<^verbatim>\<open>None\<close>, strings and lists do not compare
  with numbers (TypeError).
\<close>

fun py_number :: "pyval \<Rightarrow> rat option" where
  "py_number (PBool b) = Some (if b then 1 else 0)"
| "py_number (PInt i) = Some (of_int i)"
| "py_number (PFloat q) = Some q"
| "py_number PNone = None"
| "py_number (PStr s) = None"
| "py_number (PList vs) = None"

definition py_less :: "rat \<Rightarrow> pyval \<Rightarrow> pyerr + bool" where
  "py_less x v = (case py_number v of None \<Rightarrow> Inl TypeError | Some q \<Rightarrow> Inr (x < q))"

definition py_ge :: "rat \<Rightarrow> pyval \<Rightarrow> pyerr + bool" where
  "py_ge x v = (case py_number v of None \<Rightarrow> Inl TypeError | Some q \<Rightarrow> Inr (x \<ge> q))"

text \<open>\<^verbatim>\<open>sub in s\<close> on two strings: \<open>sub\<close> occurs in \<open>s\<close> as a contiguous piece.\<close>

primrec py_str_contains :: "string \<Rightarrow> string \<Rightarrow> bool" where
  "py_str_contains [] sub = (sub = [])"
| "py_str_contains (c # cs) sub = (take (length sub) (c # cs) = sub \<or> py_str_contains cs sub)"

text \<open>
  \<^verbatim>\<open>username in v\<close> for a string \<open>username\<close>: list membership by equality (a string
  equals only a string), substring test on a string, TypeError on a value that is not
  iterable.
\<close>

fun py_in :: "string \<Rightarrow> pyval \<Rightarrow> pyerr + bool" where
  "py_in u (PList vs) = Inr (PStr u \<in> set vs)"
| "py_in u (PStr s) = Inr (py_str_contains s u)"
| "py_in u PNone = Inl TypeError"
| "py_in u (PBool b) = Inl TypeError"
| "py_in u (PInt i) = Inl TypeError"
| "py_in u (PFloat q) = Inl TypeError"

subsection \<open>True division\<close>

text \<open>
  \<^verbatim>\<open>a / b\<close> on two integers returns the double nearest to the exact quotient
  (CPython rounds it correctly, ties to even). A double is a multiple of the unit in the
  last place of its binade: 53 significant bits for a normal number, the fixed unit
  \<open>2 powi (- 1074)\<close> below \<open>2 powi (- 1022)\<close>.

  The nearest integer, the even one of two that are equally near:
\<close>

definition round_half_even :: "rat \<Rightarrow> int" where
  "round_half_even x =
     (let f = \<lfloor>x\<rfloor>; r = x - of_int f in
      if r < 1 / 2 then f else if 1 / 2 < r then f + 1 else if even f then f else f + 1)"

text \<open>
  The binade of a positive rational \<open>a / b\<close>, found by a search: the least \<open>k\<close> with
  \<open>b \<le> a * 2 ^ k\<close> when the quotient is below 1, the greatest \<open>k\<close> with
  \<open>b * 2 ^ k \<le> a\<close> otherwise.
\<close>

function doublings :: "int \<Rightarrow> int \<Rightarrow> nat \<Rightarrow> nat" where
  "doublings a b k = (if a \<le> 0 \<or> b \<le> a * 2 ^ k then k else doublings a b (Suc k))"
  by pat_completeness auto
termination
proof (relation "measure (\<lambda>(a, b, k). nat (b - a * 2 ^ k))")
  show "wf (measure (\<lambda>(a, b, k). nat (b - a * 2 ^ k)))" by simp
next
  fix a b :: int and k :: nat
  assume "\<not> (a \<le> 0 \<or> b \<le> a * 2 ^ k)"
  then have "a * 2 ^ k < a * 2 ^ Suc k" and "a * 2 ^ k < b" by simp_all
  then have "nat (b - a * 2 ^ Suc k) < nat (b - a * 2 ^ k)" by linarith
  then show "((a, b, Suc k), (a, b, k)) \<in> measure (\<lambda>(a, b, k). nat (b - a * 2 ^ k))" by simp
qed

function halvings :: "int \<Rightarrow> int \<Rightarrow> nat \<Rightarrow> nat" where
  "halvings a b k = (if b \<le> 0 \<or> a < b * 2 ^ Suc k then k else halvings a b (Suc k))"
  by pat_completeness auto
termination
proof (relation "measure (\<lambda>(a, b, k). nat (a - b * 2 ^ k))")
  show "wf (measure (\<lambda>(a, b, k). nat (a - b * 2 ^ k)))" by simp
next
  fix a b :: int and k :: nat
  assume "\<not> (b \<le> 0 \<or> a < b * 2 ^ Suc k)"
  then have "b * 2 ^ k < b * 2 ^ Suc k" and "b * 2 ^ Suc k \<le> a" by simp_all
  then have "nat (a - b * 2 ^ Suc k) < nat (a - b * 2 ^ k)" by linarith
  then show "((a, b, Suc k), (a, b, k)) \<in> measure (\<lambda>(a, b, k). nat (a - b * 2 ^ k))" by simp
qed

text \<open>
  The exponent \<open>e\<close> with \<open>2 powi e \<le> q < 2 powi (e + 1)\<close>, for \<open>0 < q\<close>.
\<close>

definition binade :: "rat \<Rightarrow> int" where
  "binade q =
     (let (a, b) = quotient_of q in
      if b \<le> a then int (halvings a b 0) else - int (doublings a b 0))"

text \<open>
  The double nearest to \<open>q\<close>, for \<open>q\<close> of magnitude below \<open>2 ^ 1024\<close> (beyond it
  Python raises OverflowError; the quotients of this program are at most 240).
\<close>

definition to_double :: "rat \<Rightarrow> rat" where
  "to_double q =
     (if q = 0 then 0
      else let s = max (binade \<bar>q\<bar>) (- 1022) - 52
           in of_int (round_half_even (q / 2 powi s)) * 2 powi s)"

text \<open>
  \<^verbatim>\<open>a / b\<close> for integers, \<open>b\<close> not zero: every division of the program is guarded or
  has a constant divisor.
\<close>

definition py_truediv :: "int \<Rightarrow> int \<Rightarrow> rat" where
  "py_truediv a b = to_double (of_int a / of_int b)"


subsection \<open>The objects\<close>

text \<open>
  The five lists \<^verbatim>\<open>self.yes\<close>, \<^verbatim>\<open>self.no\<close>, \<^verbatim>\<open>self.abstain\<close>, \<^verbatim>\<open>self.users\<close> and
  \<^verbatim>\<open>self.doubles\<close> of a \<^verbatim>\<open>PullRequest\<close> object.
\<close>

record tally =
  yes :: "string list"
  no :: "string list"
  abstain :: "string list"
  users :: "string list"
  doubles :: "string list"

text \<open>
  A \<^verbatim>\<open>PullRequest\<close> object after construction: its vote lists, the label names of its
  issue, and what the methods read from \<^verbatim>\<open>self.pr\<close>: \<^verbatim>\<open>mergeable\<close> (true, false or
  null), \<^verbatim>\<open>created_at\<close>, and the author date of every commit in iteration order, as
  \<^verbatim>\<open>strptime\<close> parses it (\<open>None\<close> for a string that does not match the format).
\<close>

record pull_request =
  votes :: tally
  issue_labels :: "string list"
  mergeable :: "bool option"
  created_at :: int
  commit_dates :: "int option list"

type_synonym reaction = "string \<times> string"

subsection \<open>\<^verbatim>\<open>PullRequest.__init__\<close>: the tally\<close>

text \<open>
  \<^verbatim>\<open>Repository.isContributor\<close>: membership in the list of contributor logins, fetched
  once.
\<close>

definition isContributor :: "string list \<Rightarrow> string \<Rightarrow> bool" where
  "isContributor contributors username = (username \<in> set contributors)"

text \<open>The block under \<^verbatim>\<open>if username in self.users\<close> of the double-vote check.\<close>

definition exclude_double :: "string \<Rightarrow> tally \<Rightarrow> tally" where
  "exclude_double username self =
     self\<lparr>doubles := doubles self @ [username],
          users := remove1 username (users self),
          yes := (if username \<in> set (yes self) then remove1 username (yes self) else yes self),
          no := (if username \<in> set (no self) then remove1 username (no self) else no self),
          abstain := (if username \<in> set (abstain self)
                      then remove1 username (abstain self) else abstain self)\<rparr>"

text \<open>The last statement of the loop body: append to \<^verbatim>\<open>self.users\<close> if absent.\<close>

definition add_user :: "string \<Rightarrow> tally \<Rightarrow> tally" where
  "add_user username self =
     (if username \<notin> set (users self) then self\<lparr>users := users self @ [username]\<rparr> else self)"

text \<open>
  The whitelist check: \<open>Inr False\<close> is \<^verbatim>\<open>continue\<close>; a whitelist that is not
  iterable raises.
\<close>

definition whitelisted :: "rules \<Rightarrow> string \<Rightarrow> pyerr + bool" where
  "whitelisted d username =
     (case d ''whitelist'' of None \<Rightarrow> Inr True | Some w \<Rightarrow> py_in username w)"

text \<open>
  The \<^verbatim>\<open>if content == ...\<close> chain and the statement after it; in the \<^verbatim>\<open>else\<close>
  branch \<^verbatim>\<open>continue\<close> leaves the object as it is.
\<close>

definition record_vote :: "string \<Rightarrow> string \<Rightarrow> tally \<Rightarrow> tally" where
  "record_vote username content self =
     (if content = ''+1'' then add_user username (self\<lparr>yes := yes self @ [username]\<rparr>)
      else if content = ''-1'' then add_user username (self\<lparr>no := no self @ [username]\<rparr>)
      else if content = ''confused''
      then add_user username (self\<lparr>abstain := abstain self @ [username]\<rparr>)
      else self)"

text \<open>
  One iteration of \<^verbatim>\<open>for reaction in reactions\<close>. \<open>Inr self\<close> unchanged is
  \<^verbatim>\<open>continue\<close>. The repository's rules are \<open>None\<close> when no policy file was found
  (\<^verbatim>\<open>self.rules = False\<close>): \<^verbatim>\<open>'collaborators_only' in False\<close> raises TypeError.
  With \<^verbatim>\<open>collaborators_only\<close> set, the body calls the bare name \<^verbatim>\<open>isCollaborator\<close>,
  which the module does not define: NameError.
\<close>

fun loop_body :: "rules option \<Rightarrow> string list \<Rightarrow> tally \<Rightarrow> reaction \<Rightarrow> pyerr + tally" where
  "loop_body rules contributors self (username, content) =
     (if username \<in> set (doubles self) then Inr self
      else (case rules of
        None \<Rightarrow> Inl TypeError
      | Some d \<Rightarrow>
          if rule_set d ''collaborators_only'' then Inl NameError
          else if rule_set d ''contributors_only'' \<and> \<not> isContributor contributors username
          then Inr self
          else (case whitelisted d username of
            Inl e \<Rightarrow> Inl e
          | Inr listed \<Rightarrow>
              if \<not> listed then Inr self
              else if rule_set d ''prevent_doubles'' \<and> username \<in> set (users self)
              then Inr (exclude_double username self)
              else Inr (record_vote username content self))))"

text \<open>The loop: it stops at the first exception.\<close>

fun tally_loop :: "rules option \<Rightarrow> string list \<Rightarrow> tally \<Rightarrow> reaction list \<Rightarrow> pyerr + tally" where
  "tally_loop rules contributors self [] = Inr self"
| "tally_loop rules contributors self (reaction # reactions) =
     (case loop_body rules contributors self reaction of
        Inl e \<Rightarrow> Inl e
      | Inr self' \<Rightarrow> tally_loop rules contributors self' reactions)"

definition empty_tally :: tally where
  "empty_tally = \<lparr>yes = [], no = [], abstain = [], users = [], doubles = []\<rparr>"

text \<open>The vote lists \<^verbatim>\<open>PullRequest.__init__\<close> leaves in the object, or its exception.\<close>

definition PullRequest_init :: "rules option \<Rightarrow> string list \<Rightarrow> reaction list \<Rightarrow> pyerr + tally" where
  "PullRequest_init rules contributors reactions =
     tally_loop rules contributors empty_tally reactions"

subsection \<open>Elapsed time\<close>

text \<open>
  \<^verbatim>\<open>delta.seconds\<close> of a \<^verbatim>\<open>timedelta\<close> of \<open>us\<close> microseconds: the seconds field of
  the normalised (days, seconds, microseconds) triple, between 0 and 86399.
\<close>

definition timedelta_seconds :: "int \<Rightarrow> int" where
  "timedelta_seconds us = (us div 1000000) mod 86400"

text \<open>
  \<^verbatim>\<open>hoursSinceLastCommit\<close>: the loop keeps the date of the last commit iterated; with no
  commit the variable is unbound. \<open>now\<close> is what \<^verbatim>\<open>datetime.now()\<close> returns there.
\<close>

definition hoursSinceLastCommit :: "int \<Rightarrow> pull_request \<Rightarrow> pyerr + rat" where
  "hoursSinceLastCommit now self =
     (case commit_dates self of
        [] \<Rightarrow> Inl UnboundLocalError
      | c # cs \<Rightarrow>
          (case last (c # cs) of
             None \<Rightarrow> Inl ValueError
           | Some commit_date \<Rightarrow>
               Inr (py_truediv (timedelta_seconds (now - commit_date)) 360)))"

definition hoursSincePullOpened :: "int \<Rightarrow> pull_request \<Rightarrow> rat" where
  "hoursSincePullOpened now self = py_truediv (timedelta_seconds (now - created_at self)) 360"

text \<open>
  \<^verbatim>\<open>hoursSinceLastUpdate\<close> reads the clock twice, once in each method it calls:
  \<open>now_open\<close> and \<open>now_commit\<close>.
\<close>

definition hoursSinceLastUpdate :: "int \<Rightarrow> int \<Rightarrow> pull_request \<Rightarrow> pyerr + rat" where
  "hoursSinceLastUpdate now_open now_commit self =
     (let hoursOpen = hoursSincePullOpened now_open self in
      (case hoursSinceLastCommit now_commit self of
         Inl e \<Rightarrow> Inl e
       | Inr hoursSinceCommit \<Rightarrow>
           if hoursOpen < hoursSinceCommit then Inr hoursOpen else Inr hoursSinceCommit))"

subsection \<open>Labels\<close>

text \<open>\<^verbatim>\<open>str.lower\<close> on the ASCII letters; every other character is kept.\<close>

definition lower_char :: "char \<Rightarrow> char" where
  "lower_char c =
     (let n = (of_char c :: nat) in if 65 \<le> n \<and> n \<le> 90 then char_of (n + 32) else c)"

definition lower :: "string \<Rightarrow> string" where
  "lower s = map lower_char s"

definition getLabelList :: "pull_request \<Rightarrow> string list" where
  "getLabelList self = issue_labels self"

definition isBlocked :: "pull_request \<Rightarrow> bool" where
  "isBlocked self =
     (let labels = map lower (getLabelList self) in
      if ''wip'' \<in> set labels then True
      else if ''dontmerge'' \<in> set labels then True
      else False)"

subsection \<open>The class \<^verbatim>\<open>Consensus\<close>\<close>

definition isMergeable :: "pull_request \<Rightarrow> bool" where
  "isMergeable pr = (if mergeable pr \<noteq> Some True then False else True)"

definition hasQuorum :: "rules \<Rightarrow> pull_request \<Rightarrow> pyerr + bool" where
  "hasQuorum rules pr =
     (case rules ''quorum'' of
        None \<Rightarrow> Inr True
      | Some quorum \<Rightarrow>
          (case py_less (of_nat (length (users (votes pr)))) quorum of
             Inl e \<Rightarrow> Inl e
           | Inr below \<Rightarrow> if below then Inr False else Inr True))"

definition hasVotes :: "rules \<Rightarrow> pull_request \<Rightarrow> pyerr + bool" where
  "hasVotes rules pr =
     (case rules ''threshold'' of
        None \<Rightarrow> Inr True
      | Some threshold \<Rightarrow>
          (let total = length (yes (votes pr)) + length (no (votes pr)) in
           if total \<le> 0 then Inr False
           else let ratio = py_truediv (int (length (yes (votes pr)))) (int total) in
             (case py_less ratio threshold of
                Inl e \<Rightarrow> Inl e
              | Inr below \<Rightarrow> if below then Inr False else Inr True)))"

definition hasAged :: "rules \<Rightarrow> int \<Rightarrow> int \<Rightarrow> pull_request \<Rightarrow> pyerr + bool" where
  "hasAged rules now_open now_commit pr =
     (case rules ''mergedelay'' of
        None \<Rightarrow> Inr True
      | Some mergedelay \<Rightarrow>
          (case hoursSinceLastUpdate now_open now_commit pr of
             Inl e \<Rightarrow> Inl e
           | Inr hours \<Rightarrow>
               (case py_less hours mergedelay of
                  Inl e \<Rightarrow> Inl e
                | Inr below \<Rightarrow> if below then Inr False else Inr True)))"

definition Consensus_validate :: "rules \<Rightarrow> int \<Rightarrow> int \<Rightarrow> pull_request \<Rightarrow> pyerr + bool" where
  "Consensus_validate rules now_open now_commit pr =
     (if isBlocked pr then Inr False
      else if \<not> isMergeable pr then Inr False
      else (case hasQuorum rules pr of
        Inl e \<Rightarrow> Inl e
      | Inr quorum_ok \<Rightarrow>
          if \<not> quorum_ok then Inr False
          else (case hasVotes rules pr of
            Inl e \<Rightarrow> Inl e
          | Inr votes_ok \<Rightarrow>
              if \<not> votes_ok then Inr False
              else (case hasAged rules now_open now_commit pr of
                Inl e \<Rightarrow> Inl e
              | Inr aged \<Rightarrow> if \<not> aged then Inr False else Inr True))))"

subsection \<open>\<^verbatim>\<open>PullRequest.validate\<close> and \<^verbatim>\<open>PullRequest.shouldClose\<close>\<close>

text \<open>\<^verbatim>\<open>self.repository.rules == False\<close> holds of the missing policy only, of no dict.\<close>

definition PullRequest_validate :: "rules option \<Rightarrow> int \<Rightarrow> int \<Rightarrow> pull_request \<Rightarrow> pyerr + bool" where
  "PullRequest_validate rules now_open now_commit self =
     (case rules of
        None \<Rightarrow> Inr False
      | Some d \<Rightarrow> Consensus_validate d now_open now_commit self)"

definition shouldClose :: "rules option \<Rightarrow> int \<Rightarrow> pull_request \<Rightarrow> pyerr + bool" where
  "shouldClose rules now self =
     (case rules of
        None \<Rightarrow> Inl TypeError
      | Some d \<Rightarrow>
          (case d ''timeout'' of
             None \<Rightarrow> Inr False
           | Some timeout \<Rightarrow>
               (case hoursSinceLastCommit now self of
                  Inl e \<Rightarrow> Inl e
                | Inr hours \<Rightarrow>
                    (case py_ge hours timeout of
                       Inl e \<Rightarrow> Inl e
                     | Inr reached \<Rightarrow> if reached then Inr True else Inr False))))"

subsection \<open>Notions used to state the properties\<close>

text \<open>
  What the loop maintains when \<^verbatim>\<open>prevent_doubles\<close> is set: no list repeats a login,
  every login of a vote list is in \<^verbatim>\<open>users\<close>, the vote lists are pairwise disjoint, and
  \<^verbatim>\<open>users\<close> and \<^verbatim>\<open>doubles\<close> are disjoint.
\<close>

definition tally_inv :: "tally \<Rightarrow> bool" where
  "tally_inv t \<longleftrightarrow>
     distinct (yes t) \<and> distinct (no t) \<and> distinct (abstain t) \<and> distinct (users t) \<and>
     set (yes t) \<union> set (no t) \<union> set (abstain t) \<subseteq> set (users t) \<and>
     set (yes t) \<inter> set (no t) = {} \<and> set (yes t) \<inter> set (abstain t) = {} \<and>
     set (no t) \<inter> set (abstain t) = {} \<and>
     set (users t) \<inter> set (doubles t) = {}"

text \<open>What the loop maintains under every policy.\<close>

definition users_inv :: "tally \<Rightarrow> bool" where
  "users_inv t \<longleftrightarrow> distinct (users t) \<and> set (users t) \<inter> set (doubles t) = {}"




text \<open>No login is in two of the lists \<^verbatim>\<open>yes\<close>, \<^verbatim>\<open>no\<close>, \<^verbatim>\<open>abstain\<close>.\<close>

definition disjoint_votes :: "tally \<Rightarrow> bool" where
  "disjoint_votes t \<longleftrightarrow>
     set (yes t) \<inter> set (no t) = {} \<and> set (yes t) \<inter> set (abstain t) = {} \<and>
     set (no t) \<inter> set (abstain t) = {}"

text \<open>
  A pull request object used in the examples: the given vote lists, no label, mergeable,
  created at instant 0, one commit dated 8 hours (28800 seconds) later.
\<close>

definition request_with :: "string list \<Rightarrow> string list \<Rightarrow> string list \<Rightarrow> pull_request" where
  "request_with ys ns as =
     \<lparr>votes = \<lparr>yes = ys, no = ns, abstain = as, users = ys @ ns @ as, doubles = []\<rparr>,
      issue_labels = [], mergeable = Some True, created_at = 0,
      commit_dates = [Some 28800000000]\<rparr>"

section \<open>Properties of the true division\<close>

declare doublings.simps [simp del] halvings.simps [simp del]

lemma doublings_reaches: "0 < a \<Longrightarrow> b \<le> a * 2 ^ doublings a b k"
proof (induction a b k rule: doublings.induct)
  case (1 a b k)
  show ?case
  proof (cases "b \<le> a * 2 ^ k")
    case True
    then show ?thesis by (subst doublings.simps) simp
  next
    case False
    with 1 have "b \<le> a * 2 ^ doublings a b (Suc k)" by simp
    with False 1(2) show ?thesis by (subst doublings.simps) simp
  qed
qed

lemma doublings_least: "0 < a \<Longrightarrow> k \<le> j \<Longrightarrow> j < doublings a b k \<Longrightarrow> a * 2 ^ j < b"
proof (induction a b k rule: doublings.induct)
  case (1 a b k)
  show ?case
  proof (cases "b \<le> a * 2 ^ k")
    case True
    then have "doublings a b k = k" by (subst doublings.simps) simp
    with 1(3,4) show ?thesis by simp
  next
    case False
    with 1(2) have un: "doublings a b k = doublings a b (Suc k)" by (subst doublings.simps) simp
    show ?thesis
    proof (cases "j = k")
      case True
      with False show ?thesis by simp
    next
      case ne: False
      with 1(3) have "Suc k \<le> j" by simp
      with 1(1) [OF _ 1(2)] False 1(2,4) un show ?thesis by simp
    qed
  qed
qed

lemma halvings_fits: "0 < b \<Longrightarrow> b * 2 ^ k \<le> a \<Longrightarrow> b * 2 ^ halvings a b k \<le> a"
proof (induction a b k rule: halvings.induct)
  case (1 a b k)
  show ?case
  proof (cases "a < b * 2 ^ Suc k")
    case True
    then have "halvings a b k = k" by (subst halvings.simps) simp
    with 1(3) show ?thesis by simp
  next
    case False
    with 1(2) have un: "halvings a b k = halvings a b (Suc k)" by (subst halvings.simps) simp
    from False have "b * 2 ^ Suc k \<le> a" by simp
    with 1(1) [OF _ 1(2)] False 1(2) un show ?thesis by simp
  qed
qed

lemma halvings_max: "0 < b \<Longrightarrow> a < b * 2 ^ Suc (halvings a b k)"
proof (induction a b k rule: halvings.induct)
  case (1 a b k)
  show ?case
  proof (cases "a < b * 2 ^ Suc k")
    case True
    then have "halvings a b k = k" by (subst halvings.simps) simp
    with True show ?thesis by simp
  next
    case False
    with 1(2) have un: "halvings a b k = halvings a b (Suc k)" by (subst halvings.simps) simp
    with 1(1) [OF _ 1(2)] False 1(2) show ?thesis by simp
  qed
qed

text \<open>
  Rounding moves a number by at most half a unit.
\<close>

lemma round_half_even_near: "\<bar>of_int (round_half_even x) - x\<bar> \<le> 1 / 2"
proof -
  have "of_int \<lfloor>x\<rfloor> \<le> x" and "x < of_int \<lfloor>x\<rfloor> + 1" by linarith+
  then show ?thesis
    by (auto simp: round_half_even_def Let_def)
qed


text \<open>
  The search finds the binade.
\<close>

lemma binade_bounds:
  assumes "0 < q"
  shows "2 powi binade q \<le> q \<and> q < 2 powi (binade q + 1)"
proof -
  obtain a b where ab: "quotient_of q = (a, b)" by (cases "quotient_of q")
  then have b: "0 < b" by (rule quotient_of_denom_pos)
  from ab have q: "q = of_int a / of_int b" by (rule quotient_of_div)
  with assms b have a: "0 < a" by (simp add: zero_less_divide_iff)
  show ?thesis
  proof (cases "b \<le> a")
    case True
    define h where "h = halvings a b 0"
    from True ab have e: "binade q = int h" by (simp add: binade_def h_def)
    from halvings_fits [OF b, of 0 a] True have "b * 2 ^ h \<le> a" by (simp add: h_def)
    then have "(of_int (b * 2 ^ h) :: rat) \<le> of_int a" by (simp only: of_int_le_iff)
    then have lo: "(2 :: rat) ^ h \<le> q" using b by (simp add: q pos_le_divide_eq mult.commute)
    from halvings_max [OF b, of a 0] have "a < b * 2 ^ Suc h" by (simp add: h_def)
    then have "(of_int a :: rat) < of_int (b * 2 ^ Suc h)" by (simp only: of_int_less_iff)
    then have hi: "q < (2 :: rat) ^ Suc h" using b by (simp add: q pos_divide_less_eq mult.commute)
    have "(2 :: rat) powi (int h + 1) = 2 ^ Suc h"
      by (simp add: power_int_def nat_add_distrib)
    with lo hi e show ?thesis by (simp add: power_int_def)
  next
    case False
    define d where "d = doublings a b 0"
    from False ab have e: "binade q = - int d" by (simp add: binade_def d_def)
    from doublings_reaches [OF a, of b 0] have reach: "b \<le> a * 2 ^ d" by (simp add: d_def)
    have "d \<noteq> 0"
    proof
      assume "d = 0"
      with reach False show False by simp
    qed
    then obtain m where m: "d = Suc m" by (cases d) simp_all
    from reach have "(of_int b :: rat) \<le> of_int (a * 2 ^ d)" by (simp only: of_int_le_iff)
    then have "(of_int b :: rat) \<le> of_int a * 2 ^ d" by simp
    then have lo: "1 / (2 :: rat) ^ d \<le> q" using b
      by (simp add: q pos_le_divide_eq pos_divide_le_eq mult.commute)
    from doublings_least [OF a, of 0 m b] m have "a * 2 ^ m < b" by (simp add: d_def)
    then have "(of_int (a * 2 ^ m) :: rat) < of_int b" by (simp only: of_int_less_iff)
    then have "(of_int a :: rat) * 2 ^ m < of_int b" by simp
    then have hi: "q < 1 / (2 :: rat) ^ m" using b
      by (simp add: q pos_less_divide_eq pos_divide_less_eq mult.commute)
    have p1: "(2 :: rat) powi (- int d) = 1 / 2 ^ d"
      by (simp add: power_int_minus field_simps)
    have dm: "- int d + 1 = - int m" by (simp add: m)
    have "(2 :: rat) powi (- int m) = 1 / 2 ^ m"
      by (simp add: power_int_minus field_simps)
    then have p2: "(2 :: rat) powi (- int d + 1) = 1 / 2 ^ m"
      by (simp only: dm)
    from lo hi e p1 p2 show ?thesis by simp
  qed
qed

lemma to_double_near:
  "\<bar>to_double q - q\<bar> \<le> 2 powi (max (binade \<bar>q\<bar>) (- 1022) - 52) / 2"
proof (cases "q = 0")
  case True
  then show ?thesis by (simp add: to_double_def)
next
  case False
  define u :: rat where "u = 2 powi (max (binade \<bar>q\<bar>) (- 1022) - 52)"
  have u: "0 < u" by (simp add: u_def)
  from False have td: "to_double q = of_int (round_half_even (q / u)) * u"
    by (simp add: to_double_def u_def Let_def)
  have "\<bar>of_int (round_half_even (q / u)) - q / u\<bar> \<le> 1 / 2" by (rule round_half_even_near)
  then have "\<bar>of_int (round_half_even (q / u)) - q / u\<bar> * u \<le> 1 / 2 * u"
    using u by (simp only: mult_le_cancel_right_pos)
  moreover have "(of_int (round_half_even (q / u)) - q / u) * u =
      of_int (round_half_even (q / u)) * u - q"
    using u by (simp add: left_diff_distrib)
  then have "\<bar>of_int (round_half_even (q / u)) * u - q\<bar> =
      \<bar>(of_int (round_half_even (q / u)) - q / u) * u\<bar>"
    by (simp only:)
  then have "\<bar>of_int (round_half_even (q / u)) - q / u\<bar> * u =
      \<bar>of_int (round_half_even (q / u)) * u - q\<bar>"
    using u by (simp only: abs_mult abs_of_pos)
  ultimately have "\<bar>to_double q - q\<bar> \<le> u / 2" by (simp add: td)
  then show ?thesis by (simp only: u_def)
qed

text \<open>
  Quotients the examples use: 5/6, 2/3 and 1/3 are not doubles, the others are exact.
\<close>

lemma truediv_5_6: "py_truediv 5 6 = 7505999378950827 / 9007199254740992"
  by code_simp

lemma truediv_2_3: "py_truediv 2 3 = 6004799503160661 / 9007199254740992"
  by code_simp

lemma truediv_1_3: "py_truediv 1 3 = 6004799503160661 / 18014398509481984"
  by code_simp

lemma truediv_1_2: "py_truediv 1 2 = 1 / 2"
  by code_simp

lemma truediv_3_4: "py_truediv 3 4 = 3 / 4"
  by code_simp

lemma truediv_0_2: "py_truediv 0 2 = 0"
  by code_simp

lemma truediv_36000_360: "py_truediv 36000 360 = 100"
  by code_simp

lemma truediv_7200_360: "py_truediv 7200 360 = 20"
  by code_simp

lemma truediv_3600_360: "py_truediv 3600 360 = 10"
  by code_simp

lemma truediv_0_360: "py_truediv 0 360 = 0"
  by code_simp

section \<open>Properties of the tally loop\<close>

lemma empty_tally_inv: "tally_inv empty_tally"
  by (simp add: tally_inv_def empty_tally_def)

lemma exclude_double_inv: "tally_inv t \<Longrightarrow> u \<notin> set (doubles t) \<Longrightarrow> tally_inv (exclude_double u t)"
  unfolding tally_inv_def exclude_double_def
  by (auto simp: set_remove1_eq dest: notin_set_remove1)


lemma record_vote_inv: "tally_inv t \<Longrightarrow> u \<notin> set (doubles t) \<Longrightarrow> u \<notin> set (users t)
    \<Longrightarrow> tally_inv (record_vote u c t)"
  unfolding tally_inv_def record_vote_def add_user_def by auto

lemma loop_body_result:
  assumes "loop_body r cs t (u, c) = Inr t'"
  shows "t' = t \<or>
    (\<exists>d. r = Some d \<and> u \<notin> set (doubles t) \<and>
       (if rule_set d ''prevent_doubles'' \<and> u \<in> set (users t)
        then t' = exclude_double u t else t' = record_vote u c t))"
proof (cases "u \<in> set (doubles t)")
  case True
  with assms show ?thesis by simp
next
  case nd: False
  with assms obtain d where r: "r = Some d" by (cases r) simp_all
  from assms nd r have nc: "\<not> rule_set d ''collaborators_only''"
    by (cases "rule_set d ''collaborators_only''") simp_all
  show ?thesis
  proof (cases "rule_set d ''contributors_only'' \<and> \<not> isContributor cs u")
    case True
    with assms nd r nc show ?thesis by simp
  next
    case ok: False
    from assms nd r nc ok obtain listed where w: "whitelisted d u = Inr listed"
      by (cases "whitelisted d u") simp_all
    show ?thesis
    proof (cases "rule_set d ''prevent_doubles'' \<and> u \<in> set (users t)")
      case True
      with assms nd r nc ok w show ?thesis by (cases listed) auto
    next
      case False
      with assms nd r nc ok w show ?thesis by (cases listed) auto
    qed
  qed
qed

lemma loop_body_inv:
  assumes "loop_body (Some d) cs t e = Inr t'" and "rule_set d ''prevent_doubles''" and "tally_inv t"
  shows "tally_inv t'"
proof (cases e)
  case (Pair u c)
  with assms have "loop_body (Some d) cs t (u, c) = Inr t'" by simp
  from loop_body_result [OF this] assms(2,3) show ?thesis
    by (auto simp: exclude_double_inv record_vote_inv tally_inv_def [of t] split: if_splits)
qed

lemma tally_loop_inv:
  "tally_loop (Some d) cs t rs = Inr t' \<Longrightarrow> rule_set d ''prevent_doubles'' \<Longrightarrow> tally_inv t
     \<Longrightarrow> tally_inv t'"
proof (induction rs arbitrary: t)
  case Nil
  then show ?case by simp
next
  case (Cons e rs)
  from Cons.prems(1) obtain t1 where s1: "loop_body (Some d) cs t e = Inr t1"
    and s2: "tally_loop (Some d) cs t1 rs = Inr t'"
    by (auto split: sum.splits)
  from s1 Cons.prems(2,3) have "tally_inv t1" by (rule loop_body_inv)
  with s2 Cons.prems(2) show ?case by (rule Cons.IH)
qed


lemma users_inv_empty: "users_inv empty_tally"
  by (simp add: users_inv_def empty_tally_def)

lemma exclude_double_users_inv: "users_inv t \<Longrightarrow> users_inv (exclude_double u t)"
  unfolding users_inv_def exclude_double_def
  by (auto dest: notin_set_remove1)

lemma record_vote_users_inv: "users_inv t \<Longrightarrow> u \<notin> set (doubles t) \<Longrightarrow> users_inv (record_vote u c t)"
  unfolding users_inv_def record_vote_def add_user_def by auto

lemma loop_body_users_inv:
  assumes "loop_body r cs t e = Inr t'" and "users_inv t"
  shows "users_inv t'"
proof (cases e)
  case (Pair u c)
  with assms have "loop_body r cs t (u, c) = Inr t'" by simp
  from loop_body_result [OF this] assms(2) show ?thesis
    by (auto simp: exclude_double_users_inv record_vote_users_inv split: if_splits)
qed

lemma tally_loop_users_inv:
  "tally_loop r cs t rs = Inr t' \<Longrightarrow> users_inv t \<Longrightarrow> users_inv t'"
proof (induction rs arbitrary: t)
  case Nil
  then show ?case by simp
next
  case (Cons e rs)
  from Cons.prems(1) obtain t1 where s1: "loop_body r cs t e = Inr t1"
    and s2: "tally_loop r cs t1 rs = Inr t'"
    by (auto split: sum.splits)
  from s1 Cons.prems(2) have "users_inv t1" by (rule loop_body_users_inv)
  with s2 show ?case by (rule Cons.IH)
qed
















section \<open>The claims\<close>

subsection \<open>C1: the double-vote rule\<close>



subsection \<open>C2: overall validity\<close>

lemma lower_WIP: "lower ''WIP'' = ''wip''"
  by code_simp

lemma blocking_label:
  assumes "l \<in> set (issue_labels pr)" and "lower l = ''wip'' \<or> lower l = ''dontmerge''"
  shows "isBlocked pr"
proof -
  from assms(1) have "lower l \<in> set (map lower (getLabelList pr))"
    by (simp add: getLabelList_def)
  with assms(2) show ?thesis
    by (auto simp: isBlocked_def Let_def)
qed

text \<open>
  C2. When the three criteria that can raise return a value, \<^verbatim>\<open>Consensus.validate\<close> returns
  the conjunction of the five criteria (not blocked, mergeable, quorum, votes, aged). A
  blocked request is invalid whatever the other criteria give, and a request that carries
  the label WIP is blocked.
\<close>

theorem validate_conjunction:
  "(hasQuorum rules pr = Inr q \<and> hasVotes rules pr = Inr v \<and>
      hasAged rules now_open now_commit pr = Inr a \<longrightarrow>
      Consensus_validate rules now_open now_commit pr =
        Inr (\<not> isBlocked pr \<and> isMergeable pr \<and> q \<and> v \<and> a)) \<and>
   (isBlocked pr \<longrightarrow> Consensus_validate rules now_open now_commit pr = Inr False) \<and>
   (''WIP'' \<in> set (issue_labels pr) \<longrightarrow>
      isBlocked pr \<and> Consensus_validate rules now_open now_commit pr = Inr False)"
proof -
  have conj: "hasQuorum rules pr = Inr q \<and> hasVotes rules pr = Inr v \<and>
      hasAged rules now_open now_commit pr = Inr a \<longrightarrow>
      Consensus_validate rules now_open now_commit pr =
        Inr (\<not> isBlocked pr \<and> isMergeable pr \<and> q \<and> v \<and> a)"
    by (simp add: Consensus_validate_def)
  have blocked: "isBlocked pr \<longrightarrow> Consensus_validate rules now_open now_commit pr = Inr False"
    by (simp add: Consensus_validate_def)
  have wip: "''WIP'' \<in> set (issue_labels pr) \<longrightarrow>
      isBlocked pr \<and> Consensus_validate rules now_open now_commit pr = Inr False"
  proof
    assume "''WIP'' \<in> set (issue_labels pr)"
    then have "isBlocked pr" by (rule blocking_label) (simp add: lower_WIP)
    with blocked show "isBlocked pr \<and> Consensus_validate rules now_open now_commit pr = Inr False"
      by simp
  qed
  from conj blocked wip show ?thesis by (intro conjI)
qed

text \<open>
  A request labelled WIP on which quorum, threshold, mergeability and aging all pass.
\<close>

theorem validate_conjunction_witness:
  "hasQuorum [''quorum'' \<mapsto> PInt 3, ''threshold'' \<mapsto> PFloat (1 / 2), ''mergedelay'' \<mapsto> PInt 5]
     ((request_with [''alice'', ''bob''] [''carol''] [])\<lparr>issue_labels := [''WIP'']\<rparr>) = Inr True \<and>
   hasVotes [''quorum'' \<mapsto> PInt 3, ''threshold'' \<mapsto> PFloat (1 / 2), ''mergedelay'' \<mapsto> PInt 5]
     ((request_with [''alice'', ''bob''] [''carol''] [])\<lparr>issue_labels := [''WIP'']\<rparr>) = Inr True \<and>
   hasAged [''quorum'' \<mapsto> PInt 3, ''threshold'' \<mapsto> PFloat (1 / 2), ''mergedelay'' \<mapsto> PInt 5]
     36000000000 36000000000
     ((request_with [''alice'', ''bob''] [''carol''] [])\<lparr>issue_labels := [''WIP'']\<rparr>) = Inr True \<and>
   isMergeable ((request_with [''alice'', ''bob''] [''carol''] [])\<lparr>issue_labels := [''WIP'']\<rparr>) \<and>
   ''WIP'' \<in> set (issue_labels
     ((request_with [''alice'', ''bob''] [''carol''] [])\<lparr>issue_labels := [''WIP'']\<rparr>)) \<and>
   Consensus_validate
     [''quorum'' \<mapsto> PInt 3, ''threshold'' \<mapsto> PFloat (1 / 2), ''mergedelay'' \<mapsto> PInt 5]
     36000000000 36000000000
     ((request_with [''alice'', ''bob''] [''carol''] [])\<lparr>issue_labels := [''WIP'']\<rparr>) = Inr False"
proof -
  let ?d = "[''quorum'' \<mapsto> PInt 3, ''threshold'' \<mapsto> PFloat (1 / 2), ''mergedelay'' \<mapsto> PInt 5]"
  let ?pr = "(request_with [''alice'', ''bob''] [''carol''] [])\<lparr>issue_labels := [''WIP'']\<rparr>"
  have q: "hasQuorum ?d ?pr = Inr True"
    by (simp add: hasQuorum_def py_less_def request_with_def)
  have v: "hasVotes ?d ?pr = Inr True"
    by (simp add: hasVotes_def py_less_def request_with_def truediv_2_3)
  have a: "hasAged ?d 36000000000 36000000000 ?pr = Inr True"
    by (simp add: hasAged_def hoursSinceLastUpdate_def hoursSinceLastCommit_def
        hoursSincePullOpened_def timedelta_seconds_def py_less_def request_with_def
        truediv_36000_360 truediv_7200_360)
  have m: "isMergeable ?pr" by (simp add: isMergeable_def request_with_def)
  have l: "''WIP'' \<in> set (issue_labels ?pr)" by simp
  from validate_conjunction [of ?d ?pr True True 36000000000 36000000000 True] q v a l
  have "Consensus_validate ?d 36000000000 36000000000 ?pr = Inr False" by blast
  with q v a m l show ?thesis by blast
qed

subsection \<open>C3: the threshold\<close>

text \<open>
  C3 as stated fails: the quotient the code compares with the threshold is the double
  nearest to yes / (yes + no), not the exact ratio. With five yes, one no and the
  threshold 0.8333333333333334 (the double nearest to 5/6, which lies above 5/6) the check
  passes although the exact ratio is below the threshold.
\<close>

theorem hasVotes_exact_ratio_counterexample:
  "hasVotes [''threshold'' \<mapsto> PFloat (7505999378950827 / 9007199254740992)]
     (request_with [''alice'', ''bob'', ''carol'', ''dave'', ''erin''] [''frank''] []) = Inr True \<and>
   \<not> ((7505999378950827 / 9007199254740992 :: rat) \<le>
      of_nat (length (yes (votes
        (request_with [''alice'', ''bob'', ''carol'', ''dave'', ''erin''] [''frank''] [])))) /
      of_nat (length (yes (votes
        (request_with [''alice'', ''bob'', ''carol'', ''dave'', ''erin''] [''frank''] []))) +
        length (no (votes
        (request_with [''alice'', ''bob'', ''carol'', ''dave'', ''erin''] [''frank''] [])))))"
  by (simp add: hasVotes_def py_less_def request_with_def truediv_5_6)

text \<open>
  C3, amended. \<^verbatim>\<open>hasVotes\<close>: without a \<^verbatim>\<open>threshold\<close> key the check passes. With one,
  it fails when yes + no = 0; otherwise, for a numeric threshold, it passes exactly when
  the quotient yes / (yes + no) as the true division returns it, the double nearest to the
  exact ratio, is at least the threshold, equality included: threshold 1/2 passes with one
  yes and one no, fails with one yes and two no. The abstain list plays no part.
\<close>

theorem hasVotes_threshold:
  "(rules ''threshold'' = None \<longrightarrow> hasVotes rules pr = Inr True) \<and>
   (rules ''threshold'' = Some th \<and> length (yes (votes pr)) + length (no (votes pr)) = 0 \<longrightarrow>
      hasVotes rules pr = Inr False) \<and>
   (rules ''threshold'' = Some th \<and> py_number th = Some q \<and>
      0 < length (yes (votes pr)) + length (no (votes pr)) \<longrightarrow>
      hasVotes rules pr =
        Inr (py_truediv (int (length (yes (votes pr))))
               (int (length (yes (votes pr)) + length (no (votes pr)))) \<ge> q)) \<and>
   (rules ''threshold'' = Some (PFloat (1 / 2)) \<and> length (yes (votes pr)) = 1 \<and>
      length (no (votes pr)) = 1 \<longrightarrow> hasVotes rules pr = Inr True) \<and>
   (rules ''threshold'' = Some (PFloat (1 / 2)) \<and> length (yes (votes pr)) = 1 \<and>
      length (no (votes pr)) = 2 \<longrightarrow> hasVotes rules pr = Inr False) \<and>
   hasVotes rules (pr\<lparr>votes := (votes pr)\<lparr>abstain := xs\<rparr>\<rparr>) = hasVotes rules pr"
proof -
  have none: "rules ''threshold'' = None \<longrightarrow> hasVotes rules pr = Inr True"
    by (simp add: hasVotes_def)
  have zero: "rules ''threshold'' = Some th \<and>
      length (yes (votes pr)) + length (no (votes pr)) = 0 \<longrightarrow> hasVotes rules pr = Inr False"
    by (simp add: hasVotes_def)
  have ratio: "rules ''threshold'' = Some th \<and> py_number th = Some q \<and>
      0 < length (yes (votes pr)) + length (no (votes pr)) \<longrightarrow>
      hasVotes rules pr =
        Inr (py_truediv (int (length (yes (votes pr))))
               (int (length (yes (votes pr)) + length (no (votes pr)))) \<ge> q)"
    by (auto simp: hasVotes_def py_less_def Let_def)
  have tie: "rules ''threshold'' = Some (PFloat (1 / 2)) \<and> length (yes (votes pr)) = 1 \<and>
      length (no (votes pr)) = 1 \<longrightarrow> hasVotes rules pr = Inr True"
    by (simp add: hasVotes_def py_less_def truediv_1_2)
  have below: "rules ''threshold'' = Some (PFloat (1 / 2)) \<and> length (yes (votes pr)) = 1 \<and>
      length (no (votes pr)) = 2 \<longrightarrow> hasVotes rules pr = Inr False"
    by (simp add: hasVotes_def py_less_def truediv_1_3)
  have abst: "hasVotes rules (pr\<lparr>votes := (votes pr)\<lparr>abstain := xs\<rparr>\<rparr>) = hasVotes rules pr"
    by (auto simp: hasVotes_def split: option.splits)
  from none zero ratio tie below abst show ?thesis by (intro conjI)
qed

text \<open>
  The boundary cases on concrete requests.
\<close>

theorem hasVotes_threshold_witness:
  "hasVotes [''threshold'' \<mapsto> PFloat (1 / 2)] (request_with [''alice''] [''bob''] [''carol'']) = Inr True \<and>
   hasVotes [''threshold'' \<mapsto> PFloat (1 / 2)] (request_with [''alice''] [''bob'', ''dave''] []) = Inr False \<and>
   hasVotes [''threshold'' \<mapsto> PFloat (3 / 4)]
     (request_with [''alice'', ''erin'', ''frank''] [''bob''] []) = Inr True \<and>
   hasVotes [''threshold'' \<mapsto> PFloat (1 / 2)] (request_with [] [] [''carol'']) = Inr False \<and>
   hasVotes [''quorum'' \<mapsto> PInt 2] (request_with [] [''bob''] []) = Inr True"
proof -
  let ?half = "[''threshold'' \<mapsto> PFloat (1 / 2)]"
  have "hasVotes ?half (request_with [''alice''] [''bob''] [''carol'']) = Inr True"
    using hasVotes_threshold [of ?half "request_with [''alice''] [''bob''] [''carol'']"]
    by (simp add: request_with_def)
  moreover have "hasVotes ?half (request_with [''alice''] [''bob'', ''dave''] []) = Inr False"
    using hasVotes_threshold [of ?half "request_with [''alice''] [''bob'', ''dave''] []"]
    by (simp add: request_with_def)
  moreover have "hasVotes [''threshold'' \<mapsto> PFloat (3 / 4)]
      (request_with [''alice'', ''erin'', ''frank''] [''bob''] []) = Inr True"
    using hasVotes_threshold [of "[''threshold'' \<mapsto> PFloat (3 / 4)]"
        "request_with [''alice'', ''erin'', ''frank''] [''bob''] []" "PFloat (3 / 4)" "3 / 4"]
    by (simp add: request_with_def truediv_3_4)
  moreover have "hasVotes ?half (request_with [] [] [''carol'']) = Inr False"
    using hasVotes_threshold [of ?half "request_with [] [] [''carol'']" "PFloat (1 / 2)"]
    by (simp add: request_with_def)
  moreover have "hasVotes [''quorum'' \<mapsto> PInt 2] (request_with [] [''bob''] []) = Inr True"
    using hasVotes_threshold [of "[''quorum'' \<mapsto> PInt 2]" "request_with [] [''bob''] []"]
    by simp
  ultimately show ?thesis by (intro conjI)
qed

subsection \<open>C4: the tally invariant\<close>

text \<open>
  C4 as stated fails: without \<^verbatim>\<open>prevent_doubles\<close>, a voter who reacts with +1 and with -1
  is in both \<^verbatim>\<open>yes\<close> and \<^verbatim>\<open>no\<close>.
\<close>

theorem tally_disjoint_counterexample:
  "PullRequest_init (Some [''quorum'' \<mapsto> PInt 2]) [] [(''alice'', ''+1''), (''alice'', ''-1'')] =
     Inr \<lparr>yes = [''alice''], no = [''alice''], abstain = [], users = [''alice''], doubles = []\<rparr> \<and>
   \<not> disjoint_votes
     \<lparr>yes = [''alice''], no = [''alice''], abstain = [], users = [''alice''], doubles = []\<rparr>"
  by (simp add: PullRequest_init_def empty_tally_def rule_set_def whitelisted_def
      record_vote_def add_user_def disjoint_votes_def)

text \<open>
  C4, amended. Whenever the construction of the tally completes, no login is in both
  \<^verbatim>\<open>users\<close> and \<^verbatim>\<open>doubles\<close>; and when \<^verbatim>\<open>prevent_doubles\<close> is set, no login is in two of
  \<^verbatim>\<open>yes\<close>, \<^verbatim>\<open>no\<close>, \<^verbatim>\<open>abstain\<close>.
\<close>

theorem tally_invariant:
  assumes "PullRequest_init r cs rs = Inr t"
  shows "set (users t) \<inter> set (doubles t) = {} \<and>
    ((\<exists>d. r = Some d \<and> rule_set d ''prevent_doubles'') \<longrightarrow> disjoint_votes t)"
proof
  from assms have run: "tally_loop r cs empty_tally rs = Inr t"
    by (simp add: PullRequest_init_def)
  from tally_loop_users_inv [OF run users_inv_empty]
  show "set (users t) \<inter> set (doubles t) = {}" by (simp add: users_inv_def)
  show "(\<exists>d. r = Some d \<and> rule_set d ''prevent_doubles'') \<longrightarrow> disjoint_votes t"
  proof
    assume "\<exists>d. r = Some d \<and> rule_set d ''prevent_doubles''"
    then obtain d where r: "r = Some d" and pd: "rule_set d ''prevent_doubles''" by blast
    from run r have "tally_loop (Some d) cs empty_tally rs = Inr t" by simp
    from tally_loop_inv [OF this pd empty_tally_inv]
    show "disjoint_votes t" by (simp add: tally_inv_def disjoint_votes_def)
  qed
qed

text \<open>
  The invariant on a run with a double voter.
\<close>

theorem tally_invariant_witness:
  "PullRequest_init (Some [''prevent_doubles'' \<mapsto> PBool True]) []
       [(''alice'', ''+1''), (''alice'', ''-1''), (''bob'', ''confused'')] =
     Inr \<lparr>yes = [], no = [], abstain = [''bob''], users = [''bob''], doubles = [''alice'']\<rparr> \<and>
   rule_set [''prevent_doubles'' \<mapsto> PBool True] ''prevent_doubles'' \<and>
   set (users \<lparr>yes = [], no = [], abstain = [''bob''], users = [''bob''], doubles = [''alice'']\<rparr>) \<inter>
   set (doubles \<lparr>yes = [], no = [], abstain = [''bob''], users = [''bob''], doubles = [''alice'']\<rparr>) = {} \<and>
   disjoint_votes \<lparr>yes = [], no = [], abstain = [''bob''], users = [''bob''], doubles = [''alice'']\<rparr>"
proof -
  let ?d = "[''prevent_doubles'' \<mapsto> PBool True]"
  let ?rs = "[(''alice'', ''+1''), (''alice'', ''-1''), (''bob'', ''confused'')]"
  let ?t = "\<lparr>yes = [], no = [], abstain = [''bob''], users = [''bob''], doubles = [''alice'']\<rparr>"
  have run: "PullRequest_init (Some ?d) [] ?rs = Inr ?t"
    by (simp add: PullRequest_init_def empty_tally_def rule_set_def whitelisted_def
        record_vote_def add_user_def exclude_double_def)
  have pd: "rule_set ?d ''prevent_doubles''" by (simp add: rule_set_def)
  from tally_invariant [OF run] pd
  have "set (users ?t) \<inter> set (doubles ?t) = {} \<and> disjoint_votes ?t" by blast
  with run pd show ?thesis by blast
qed

subsection \<open>C5: reactions that are not votes\<close>

text \<open>
  C5. The double-vote check comes before the test of the content. With
  \<^verbatim>\<open>prevent_doubles\<close> set, alice votes +1 and then reacts with a heart: the heart runs
  the exclusion block, and alice ends in \<^verbatim>\<open>doubles\<close> with no vote, where the claim has
  the tally unchanged by the heart.
\<close>

theorem unmapped_reaction_excludes_voter:
  "PullRequest_init (Some [''prevent_doubles'' \<mapsto> PBool True]) [] [(''alice'', ''+1'')] =
     Inr \<lparr>yes = [''alice''], no = [], abstain = [], users = [''alice''], doubles = []\<rparr> \<and>
   loop_body (Some [''prevent_doubles'' \<mapsto> PBool True]) []
       \<lparr>yes = [''alice''], no = [], abstain = [], users = [''alice''], doubles = []\<rparr>
       (''alice'', ''heart'') =
     Inr \<lparr>yes = [], no = [], abstain = [], users = [], doubles = [''alice'']\<rparr> \<and>
   PullRequest_init (Some [''prevent_doubles'' \<mapsto> PBool True]) []
       [(''alice'', ''+1''), (''alice'', ''heart'')] =
     Inr \<lparr>yes = [], no = [], abstain = [], users = [], doubles = [''alice'']\<rparr>"
  by (simp add: PullRequest_init_def empty_tally_def rule_set_def whitelisted_def
      record_vote_def add_user_def exclude_double_def)

subsection \<open>C6: the age of a request\<close>

text \<open>
  The effective age is the smaller of the two durations the methods return.
\<close>

lemma hoursSinceLastUpdate_min:
  "hoursSinceLastCommit now_commit pr = Inr h \<Longrightarrow>
   hoursSinceLastUpdate now_open now_commit pr = Inr (min (hoursSincePullOpened now_open pr) h)"
  by (auto simp: hoursSinceLastUpdate_def min_def Let_def)

text \<open>
  C6. A request opened 10 hours ago whose last commit is 2 hours old. The methods divide
  the seconds by 360: they return 100 and 20, the effective age is 20 and not 2, and
  with \<^verbatim>\<open>mergedelay\<close> 5 the check \<^verbatim>\<open>hasAged\<close> passes, where the claim has it fail.
\<close>

theorem aging_example:
  "hoursSincePullOpened 36000000000 (request_with [''alice''] [] []) = 100 \<and>
   hoursSinceLastCommit 36000000000 (request_with [''alice''] [] []) = Inr 20 \<and>
   hoursSinceLastUpdate 36000000000 36000000000 (request_with [''alice''] [] []) = Inr 20 \<and>
   hasAged [''mergedelay'' \<mapsto> PInt 5] 36000000000 36000000000
     (request_with [''alice''] [] []) = Inr True"
  by (simp add: hasAged_def hoursSinceLastUpdate_def hoursSinceLastCommit_def
      hoursSincePullOpened_def timedelta_seconds_def py_less_def request_with_def
      truediv_36000_360 truediv_7200_360)

subsection \<open>C7: the quorum\<close>

text \<open>
  C7. \<^verbatim>\<open>hasQuorum\<close>: with a numeric \<^verbatim>\<open>quorum\<close>, the check passes exactly when the
  number of entries of \<^verbatim>\<open>users\<close> is at least the quorum; without the key it passes for
  every tally. The entries of \<^verbatim>\<open>users\<close> are distinct in every tally the constructor
  builds, so their number is the number of distinct voters.
\<close>

theorem hasQuorum_rule:
  "(rules ''quorum'' = Some qv \<and> py_number qv = Some q \<longrightarrow>
      hasQuorum rules pr = Inr (of_nat (length (users (votes pr))) \<ge> q)) \<and>
   (rules ''quorum'' = None \<longrightarrow> hasQuorum rules pr = Inr True) \<and>
   (PullRequest_init r cs rs = Inr (votes pr) \<longrightarrow>
      length (users (votes pr)) = card (set (users (votes pr))))"
proof -
  have some: "rules ''quorum'' = Some qv \<and> py_number qv = Some q \<longrightarrow>
      hasQuorum rules pr = Inr (of_nat (length (users (votes pr))) \<ge> q)"
    by (auto simp: hasQuorum_def py_less_def)
  have none: "rules ''quorum'' = None \<longrightarrow> hasQuorum rules pr = Inr True"
    by (simp add: hasQuorum_def)
  have dist: "PullRequest_init r cs rs = Inr (votes pr) \<longrightarrow>
      length (users (votes pr)) = card (set (users (votes pr)))"
  proof
    assume "PullRequest_init r cs rs = Inr (votes pr)"
    then have "tally_loop r cs empty_tally rs = Inr (votes pr)"
      by (simp add: PullRequest_init_def)
    from tally_loop_users_inv [OF this users_inv_empty]
    have "distinct (users (votes pr))" by (simp add: users_inv_def)
    then show "length (users (votes pr)) = card (set (users (votes pr)))"
      by (simp add: distinct_card)
  qed
  from some none dist show ?thesis by (intro conjI)
qed

text \<open>
  Quorum 3 with three voters and with two; no quorum key and no voter.
\<close>

theorem hasQuorum_rule_witness:
  "hasQuorum [''quorum'' \<mapsto> PInt 3] (request_with [''alice''] [''bob''] [''carol'']) = Inr True \<and>
   hasQuorum [''quorum'' \<mapsto> PInt 3] (request_with [''alice''] [''bob''] []) = Inr False \<and>
   hasQuorum [''threshold'' \<mapsto> PFloat (1 / 2)] (request_with [] [] []) = Inr True \<and>
   PullRequest_init (Some [''quorum'' \<mapsto> PInt 3]) []
       [(''alice'', ''+1''), (''bob'', ''-1''), (''carol'', ''confused'')] =
     Inr (votes (request_with [''alice''] [''bob''] [''carol''])) \<and>
   length (users (votes (request_with [''alice''] [''bob''] [''carol'']))) =
     card (set (users (votes (request_with [''alice''] [''bob''] [''carol'']))))"
proof -
  let ?three = "[''quorum'' \<mapsto> PInt 3]"
  let ?pr = "request_with [''alice''] [''bob''] [''carol'']"
  have "hasQuorum ?three ?pr = Inr True"
    using hasQuorum_rule [of ?three "PInt 3" 3 ?pr] by (simp add: request_with_def)
  moreover have "hasQuorum ?three (request_with [''alice''] [''bob''] []) = Inr False"
    using hasQuorum_rule [of ?three "PInt 3" 3 "request_with [''alice''] [''bob''] []"]
    by (simp add: request_with_def)
  moreover have "hasQuorum [''threshold'' \<mapsto> PFloat (1 / 2)] (request_with [] [] []) = Inr True"
    using hasQuorum_rule [of "[''threshold'' \<mapsto> PFloat (1 / 2)]" _ _ "request_with [] [] []"]
    by simp
  moreover have run: "PullRequest_init (Some ?three) []
       [(''alice'', ''+1''), (''bob'', ''-1''), (''carol'', ''confused'')] = Inr (votes ?pr)"
    by (simp add: PullRequest_init_def empty_tally_def rule_set_def whitelisted_def
        record_vote_def add_user_def request_with_def)
  moreover from hasQuorum_rule [of _ _ _ ?pr "Some ?three" "[]"
      "[(''alice'', ''+1''), (''bob'', ''-1''), (''carol'', ''confused'')]"] run
  have "length (users (votes ?pr)) = card (set (users (votes ?pr)))" by blast
  ultimately show ?thesis by (intro conjI)
qed

subsection \<open>C8: closing a stale request\<close>

text \<open>
  The decision of \<^verbatim>\<open>shouldClose\<close> in terms of what \<^verbatim>\<open>hoursSinceLastCommit\<close> returns:
  false without a \<^verbatim>\<open>timeout\<close> key, otherwise the comparison with the timeout; it reads
  nothing of the request but its commit dates.
\<close>

lemma shouldClose_decision:
  "(d ''timeout'' = None \<longrightarrow> shouldClose (Some d) now pr = Inr False) \<and>
   (d ''timeout'' = Some tv \<and> py_number tv = Some q \<and> hoursSinceLastCommit now pr = Inr h \<longrightarrow>
      shouldClose (Some d) now pr = Inr (h \<ge> q)) \<and>
   (commit_dates pr' = commit_dates pr \<longrightarrow> shouldClose r now pr' = shouldClose r now pr)"
  by (auto simp: shouldClose_def py_ge_def hoursSinceLastCommit_def split: option.splits)

text \<open>
  C8. The value compared with the timeout is not the hours since the last commit. One hour
  after the last commit, \<^verbatim>\<open>hoursSinceLastCommit\<close> returns 10 and a timeout of 5 hours
  closes the request; three days after it, the method returns 0 and a timeout of 48
  hours does not close it.
\<close>

theorem shouldClose_example:
  "hoursSinceLastCommit 32400000000 (request_with [] [] []) = Inr 10 \<and>
   shouldClose (Some [''timeout'' \<mapsto> PInt 5]) 32400000000 (request_with [] [] []) = Inr True \<and>
   hoursSinceLastCommit 288000000000 (request_with [] [] []) = Inr 0 \<and>
   shouldClose (Some [''timeout'' \<mapsto> PInt 48]) 288000000000 (request_with [] [] []) = Inr False"
  by (simp add: shouldClose_def hoursSinceLastCommit_def timedelta_seconds_def py_ge_def
      request_with_def truediv_3600_360 truediv_0_360)

subsection \<open>C9: eligibility checks and exceptions\<close>

text \<open>
  C9. With \<^verbatim>\<open>collaborators_only\<close> set, the first reaction raises NameError: the loop
  calls the bare name \<^verbatim>\<open>isCollaborator\<close>, which the module does not define.
\<close>

theorem collaborators_only_raises:
  "PullRequest_init (Some [''collaborators_only'' \<mapsto> PBool True]) [] [(''alice'', ''+1'')] =
     Inl NameError"
  by (simp add: PullRequest_init_def empty_tally_def rule_set_def)

text \<open>
  The same for every policy that sets the key and every non-empty list of reactions; and
  with no policy at all the first reaction raises TypeError.
\<close>

lemma collaborators_only_always_raises:
  "rule_set d ''collaborators_only'' \<Longrightarrow> PullRequest_init (Some d) cs (r # rs) = Inl NameError"
  by (cases r) (simp add: PullRequest_init_def empty_tally_def)

lemma no_rules_raises:
  "PullRequest_init None cs (r # rs) = Inl TypeError"
  by (cases r) (simp add: PullRequest_init_def empty_tally_def)

subsection \<open>C10: no policy\<close>

text \<open>
  C10. With no policy (\<^verbatim>\<open>rules\<close> is \<^verbatim>\<open>False\<close>), \<^verbatim>\<open>PullRequest.validate\<close> returns
  false, for every request and every clock reading: no criterion is evaluated, none can
  raise.
\<close>

theorem unconfigured_validate:
  "PullRequest_validate None now_open now_commit pr = Inr False"
  by (simp add: PullRequest_validate_def)

end
